theory Spec2Isabelle
  imports Main "HOL-Library.Sublist" "HOL-Library.Word"
begin

section \<open>Python values, strings and exceptions\<close>

text \<open>
  A Python \<open>str\<close> is a sequence of Unicode code points; it is modelled as a list of
  natural numbers, one per code point, so that \<open>length\<close>, slicing and the
  whitespace class count what Python counts. \<open>ustr\<close> turns an ASCII literal into
  such a string.
\<close>

type_synonym pystr = "nat list"

definition ustr :: "string \<Rightarrow> pystr" where
  "ustr cs = map of_char cs"

text \<open>
  The values the program handles: what \<open>json.loads\<close>, \<open>repair_json\<close> and
  \<open>ast.literal_eval\<close> can return. A \<open>float\<close> is its IEEE 754 double, a
  \<open>dict\<close> is the list of its items in insertion order.
\<close>

datatype pyval =
    PNone
  | PEllipsis
  | PBool bool
  | PInt int
  | PFloat "64 word"
  | PComplex "64 word" "64 word"
  | PStr pystr
  | PBytes "nat list"
  | PList "pyval list"
  | PTuple "pyval list"
  | PSet "pyval list"
  | PDict "(pyval \<times> pyval) list"

text \<open>
  The exception classes that occur. \<open>JSONDecodeError\<close> is a subclass of
  \<open>ValueError\<close>; every class but \<open>KeyboardInterrupt\<close> is a subclass of
  \<open>Exception\<close>. \<open>HTTPError\<close> carries the status code, \<open>ValueError\<close> and
  \<open>RuntimeError\<close> their message.
\<close>

datatype exn =
    JSONDecodeError
  | ValueError pystr
  | SyntaxError
  | TypeError
  | AttributeError
  | KeyError
  | IndexError
  | RuntimeError pystr
  | HTTPError nat
  | ConnectionError
  | Timeout
  | RecursionError
  | MemoryError
  | KeyboardInterrupt

fun is_JSONDecodeError :: "exn \<Rightarrow> bool" where
  "is_JSONDecodeError JSONDecodeError = True"
| "is_JSONDecodeError _ = False"

fun is_ValueError :: "exn \<Rightarrow> bool" where
  "is_ValueError JSONDecodeError = True"
| "is_ValueError (ValueError _) = True"
| "is_ValueError _ = False"

fun is_SyntaxError :: "exn \<Rightarrow> bool" where
  "is_SyntaxError SyntaxError = True"
| "is_SyntaxError _ = False"

fun is_Exception :: "exn \<Rightarrow> bool" where
  "is_Exception KeyboardInterrupt = False"
| "is_Exception _ = True"

fun is_lookup_or_type_error :: "exn \<Rightarrow> bool" where
  "is_lookup_or_type_error KeyError = True"
| "is_lookup_or_type_error IndexError = True"
| "is_lookup_or_type_error TypeError = True"
| "is_lookup_or_type_error _ = False"

subsection \<open>Built-in operations\<close>

text \<open>
  \<open>str.isspace\<close> of one code point; \<open>str.strip()\<close> and the regular expression
  class \<open>\s\<close> of a \<open>str\<close> pattern both use it.
\<close>

definition is_space :: "nat \<Rightarrow> bool" where
  "is_space c =
     ((9 \<le> c \<and> c \<le> 13) \<or> (28 \<le> c \<and> c \<le> 32) \<or> c = 133 \<or> c = 160 \<or> c = 5760 \<or>
      (8192 \<le> c \<and> c \<le> 8202) \<or> c = 8232 \<or> c = 8233 \<or> c = 8239 \<or> c = 8287 \<or>
      c = 12288)"

definition lstrip_by :: "(nat \<Rightarrow> bool) \<Rightarrow> pystr \<Rightarrow> pystr" where
  "lstrip_by p s = dropWhile p s"

definition rstrip_by :: "(nat \<Rightarrow> bool) \<Rightarrow> pystr \<Rightarrow> pystr" where
  "rstrip_by p s = rev (dropWhile p (rev s))"

definition strip_by :: "(nat \<Rightarrow> bool) \<Rightarrow> pystr \<Rightarrow> pystr" where
  "strip_by p s = rstrip_by p (lstrip_by p s)"

definition py_strip :: "pystr \<Rightarrow> pystr" where
  "py_strip s = strip_by is_space s"

text \<open>
  \<open>str(x)\<close>: a \<open>str\<close> is returned as it is; every other type here has no
  \<open>__str__\<close> of its own, so \<open>str\<close> is \<open>repr\<close>, which is a parameter.
\<close>

definition py_str :: "(pyval \<Rightarrow> pystr) \<Rightarrow> pyval \<Rightarrow> pystr" where
  "py_str rp v = (case v of PStr s \<Rightarrow> s | _ \<Rightarrow> rp v)"

text \<open>Truth value testing, as \<open>if x:\<close> and \<open>x or y\<close> do it.\<close>

fun truthy :: "pyval \<Rightarrow> bool" where
  "truthy PNone = False"
| "truthy PEllipsis = True"
| "truthy (PBool b) = b"
| "truthy (PInt n) = (n \<noteq> 0)"
| "truthy (PFloat w) = (take_bit 63 w \<noteq> 0)"
| "truthy (PComplex re im) = (\<not> (take_bit 63 re = 0 \<and> take_bit 63 im = 0))"
| "truthy (PStr s) = (s \<noteq> [])"
| "truthy (PBytes bs) = (bs \<noteq> [])"
| "truthy (PList xs) = (xs \<noteq> [])"
| "truthy (PTuple xs) = (xs \<noteq> [])"
| "truthy (PSet xs) = (xs \<noteq> [])"
| "truthy (PDict kvs) = (kvs \<noteq> [])"

fun isinstance_list :: "pyval \<Rightarrow> bool" where
  "isinstance_list (PList _) = True"
| "isinstance_list _ = False"

fun isinstance_dict :: "pyval \<Rightarrow> bool" where
  "isinstance_dict (PDict _) = True"
| "isinstance_dict _ = False"

text \<open>\<open>needle in s\<close> for two strings: the substring test.\<close>

fun contains_sub :: "pystr \<Rightarrow> pystr \<Rightarrow> bool" where
  "contains_sub needle [] = (needle = [])"
| "contains_sub needle (c # cs) = (prefix needle (c # cs) \<or> contains_sub needle cs)"

text \<open>
  \<open>key in payload\<close> for a \<open>str\<close> key: membership among the keys of a dict or the
  elements of a list, tuple or set, the substring test on a string, \<open>TypeError\<close> on
  every other type.
\<close>

fun py_contains :: "pystr \<Rightarrow> pyval \<Rightarrow> exn + bool" where
  "py_contains key (PDict kvs) = Inr (PStr key \<in> set (map fst kvs))"
| "py_contains key (PList xs) = Inr (PStr key \<in> set xs)"
| "py_contains key (PTuple xs) = Inr (PStr key \<in> set xs)"
| "py_contains key (PSet xs) = Inr (PStr key \<in> set xs)"
| "py_contains key (PStr s) = Inr (contains_sub key s)"
| "py_contains key _ = Inl TypeError"

text \<open>
  Storing under a key of a dict: an existing key keeps its place, a new key goes last.
\<close>

fun dict_set :: "(pyval \<times> pyval) list \<Rightarrow> pyval \<Rightarrow> pyval \<Rightarrow> (pyval \<times> pyval) list" where
  "dict_set [] k v = [(k, v)]"
| "dict_set ((k', v') # kvs) k v =
     (if k' = k then (k', v) # kvs else (k', v') # dict_set kvs k v)"

text \<open>\<open>payload[key] = v\<close> for a \<open>str\<close> key: only a dict supports it.\<close>

fun py_setitem :: "pyval \<Rightarrow> pystr \<Rightarrow> pyval \<Rightarrow> exn + pyval" where
  "py_setitem (PDict kvs) key v = Inr (PDict (dict_set kvs (PStr key) v))"
| "py_setitem _ key v = Inl TypeError"

text \<open>\<open>payload[key]\<close> for a \<open>str\<close> key.\<close>

fun py_getitem :: "pyval \<Rightarrow> pystr \<Rightarrow> exn + pyval" where
  "py_getitem (PDict kvs) key =
     (case map_of kvs (PStr key) of None \<Rightarrow> Inl KeyError | Some v \<Rightarrow> Inr v)"
| "py_getitem _ key = Inl TypeError"

text \<open>\<open>payload.get(key)\<close>: a method of dicts only.\<close>

fun py_get :: "pyval \<Rightarrow> pystr \<Rightarrow> exn + pyval" where
  "py_get (PDict kvs) key =
     (case map_of kvs (PStr key) of None \<Rightarrow> Inr PNone | Some v \<Rightarrow> Inr v)"
| "py_get _ key = Inl AttributeError"

text \<open>The elements a \<open>for\<close> clause runs over.\<close>

fun py_iter :: "pyval \<Rightarrow> exn + pyval list" where
  "py_iter (PList xs) = Inr xs"
| "py_iter (PTuple xs) = Inr xs"
| "py_iter (PSet xs) = Inr xs"
| "py_iter (PDict kvs) = Inr (map fst kvs)"
| "py_iter (PStr s) = Inr (map (\<lambda>c. PStr [c]) s)"
| "py_iter (PBytes bs) = Inr (map (\<lambda>b. PInt (int b)) bs)"
| "py_iter _ = Inl TypeError"

section \<open>The schema\<close>

definition EXPECTED_KEYS :: "pystr list" where
  "EXPECTED_KEYS =
     map ustr [''market_competition'', ''monetization_potential'', ''target_users'',
       ''feature_suggestions'', ''mvp_plan'', ''risk_score'', ''summary'']"

section \<open>The validator\<close>

definition required_keys :: "pystr list" where
  "required_keys =
     map ustr [''market_competition'', ''monetization_potential'', ''target_users'',
       ''feature_suggestions'', ''mvp_plan'', ''risk_score'', ''summary'']"

definition list_fields :: "pystr list" where
  "list_fields = map ustr [''feature_suggestions'', ''mvp_plan'']"

definition default_of :: "pystr \<Rightarrow> pyval" where
  "default_of key = (if key \<in> set list_fields then PList [] else PStr (ustr ''Not provided''))"

text \<open>The loop \<open>for key in required_keys: if key not in payload: payload[key] = ...\<close>.\<close>

fun fill_defaults :: "pystr list \<Rightarrow> pyval \<Rightarrow> exn + pyval" where
  "fill_defaults [] payload = Inr payload"
| "fill_defaults (key # keys) payload =
     (case py_contains key payload of
        Inl e \<Rightarrow> Inl e
      | Inr present \<Rightarrow>
          if present then fill_defaults keys payload
          else (case py_setitem payload key (default_of key) of
                  Inl e \<Rightarrow> Inl e
                | Inr payload' \<Rightarrow> fill_defaults keys payload'))"

text \<open>
  \<open>if not isinstance(payload.get(key), list): payload[key] = [str(payload[key])]\<close>
\<close>

definition wrap_list_field :: "(pyval \<Rightarrow> pystr) \<Rightarrow> pystr \<Rightarrow> pyval \<Rightarrow> exn + pyval" where
  "wrap_list_field rp key payload =
     (case py_get payload key of
        Inl e \<Rightarrow> Inl e
      | Inr v \<Rightarrow>
          if isinstance_list v then Inr payload
          else (case py_getitem payload key of
                  Inl e \<Rightarrow> Inl e
                | Inr w \<Rightarrow> py_setitem payload key (PList [PStr (py_str rp w)])))"

text \<open>
  \<open>payload[key] = [str(x).strip() for x in payload[key] if str(x).strip()]\<close>
\<close>

definition clean_items :: "(pyval \<Rightarrow> pystr) \<Rightarrow> pyval list \<Rightarrow> pyval list" where
  "clean_items rp xs =
     map PStr (filter (\<lambda>s. s \<noteq> []) (map (\<lambda>x. py_strip (py_str rp x)) xs))"

definition clean_list_field :: "(pyval \<Rightarrow> pystr) \<Rightarrow> pystr \<Rightarrow> pyval \<Rightarrow> exn + pyval" where
  "clean_list_field rp key payload =
     (case py_getitem payload key of
        Inl e \<Rightarrow> Inl e
      | Inr v \<Rightarrow>
          (case py_iter v of
             Inl e \<Rightarrow> Inl e
           | Inr xs \<Rightarrow> py_setitem payload key (PList (clean_items rp xs))))"

text \<open>
  \<open>_validate_response\<close>: the argument is whatever the parser returned, a dict or
  not; the result is the updated payload or the exception raised on the way.
\<close>

definition validate_response :: "(pyval \<Rightarrow> pystr) \<Rightarrow> pyval \<Rightarrow> exn + pyval" where
  "validate_response rp payload =
     (case fill_defaults required_keys payload of
        Inl e \<Rightarrow> Inl e
      | Inr p1 \<Rightarrow>
     (case wrap_list_field rp (ustr ''feature_suggestions'') p1 of
        Inl e \<Rightarrow> Inl e
      | Inr p2 \<Rightarrow>
     (case wrap_list_field rp (ustr ''mvp_plan'') p2 of
        Inl e \<Rightarrow> Inl e
      | Inr p3 \<Rightarrow>
     (case clean_list_field rp (ustr ''feature_suggestions'') p3 of
        Inl e \<Rightarrow> Inl e
      | Inr p4 \<Rightarrow> clean_list_field rp (ustr ''mvp_plan'') p4))))"

subsection \<open>The validator on a store\<close>






section \<open>Library functions and the environment\<close>

text \<open>
  The functions of the standard library and of \<open>json_repair\<close> that the program calls
  are parameters: each takes a string and returns a value or raises.
  \<open>repair_json\<close> is \<open>None\<close> when the optional import failed. \<open>py_repr\<close> is the
  built-in \<open>repr\<close>.
\<close>

record pylib =
  json_loads :: "pystr \<Rightarrow> exn + pyval"
  repair_json :: "(pystr \<Rightarrow> exn + pyval) option"
  literal_eval :: "pystr \<Rightarrow> exn + pyval"
  py_repr :: "pyval \<Rightarrow> pystr"

text \<open>\<open>s[i:j]\<close> for indices that are not negative.\<close>

definition slice :: "pystr \<Rightarrow> nat \<Rightarrow> nat \<Rightarrow> pystr" where
  "slice s i j = drop i (take j s)"

text \<open>\<open>s.find(needle)\<close>: the lowest index where \<open>needle\<close> starts, if any.\<close>

fun find_sub :: "pystr \<Rightarrow> pystr \<Rightarrow> nat option" where
  "find_sub needle [] = (if needle = [] then Some 0 else None)"
| "find_sub needle (c # cs) =
     (if prefix needle (c # cs) then Some 0 else map_option Suc (find_sub needle cs))"

section \<open>The extractor\<close>

subsection \<open>The fenced block\<close>

text \<open>
  \<open>re.search(r"```(?:json)?\s*([\s\S]*?)\s*```", text, re.IGNORECASE)\<close>, group 1.

  Under \<open>IGNORECASE\<close> the letters of \<open>json\<close> match either case, and \<open>s\<close> also
  matches U+017F. After the opening fence and the tag, the first \<open>\s*\<close> takes all
  the white space there is (white space is no backquote, so giving some back never
  helps); the lazy group then ends at the first place from which white space and a
  fence follow, which is the start of the white space before the next fence.
\<close>

definition fence :: pystr where
  "fence = [96, 96, 96]"

fun json_tag :: "pystr \<Rightarrow> bool" where
  "json_tag (c1 # c2 # c3 # c4 # _) =
     ((c1 = 106 \<or> c1 = 74) \<and> (c2 = 115 \<or> c2 = 83 \<or> c2 = 383) \<and>
      (c3 = 111 \<or> c3 = 79) \<and> (c4 = 110 \<or> c4 = 78))"
| "json_tag _ = False"

definition fence_body :: "pystr \<Rightarrow> pystr option" where
  "fence_body s =
     (case find_sub fence (dropWhile is_space s) of
        None \<Rightarrow> None
      | Some q \<Rightarrow> Some (rstrip_by is_space (take q (dropWhile is_space s))))"

text \<open>A match that starts at the head of \<open>s\<close>: with the tag first, then without it.\<close>

definition fence_at :: "pystr \<Rightarrow> pystr option" where
  "fence_at s =
     (if prefix fence s then
        (case (if json_tag (drop 3 s) then fence_body (drop 7 s) else None) of
           Some g \<Rightarrow> Some g
         | None \<Rightarrow> fence_body (drop 3 s))
      else None)"

text \<open>The search: the leftmost position with a match.\<close>

fun fence_search :: "pystr \<Rightarrow> pystr option" where
  "fence_search [] = None"
| "fence_search (c # cs) =
     (case fence_at (c # cs) of Some g \<Rightarrow> Some g | None \<Rightarrow> fence_search cs)"

subsection \<open>The balanced braces\<close>

text \<open>
  The loop \<open>for i, ch in enumerate(text[start:], start=start)\<close>: the index of the
  brace that closes the first one, if the loop reaches it.
\<close>

fun scan_braces :: "pystr \<Rightarrow> nat \<Rightarrow> int \<Rightarrow> nat option" where
  "scan_braces [] i depth = None"
| "scan_braces (ch # rest) i depth =
     (if ch = 123 then scan_braces rest (i + 1) (depth + 1)
      else if ch = 125 then
        (if depth - 1 = 0 then Some i else scan_braces rest (i + 1) (depth - 1))
      else scan_braces rest (i + 1) depth)"

subsection \<open>\<open>_extract_json\<close>\<close>

text \<open>
  The function is written in the order of its statements: each definition is the rest
  of the function from one strategy on. An exception that a \<open>try\<close> block does not
  catch leaves the function.
\<close>

definition extract_failure :: "pylib \<Rightarrow> pystr \<Rightarrow> exn" where
  "extract_failure L text =
     ValueError (ustr ''No valid JSON object found in model response. '' @
       ustr ''Raw model output starts with: '' @ py_repr L (PStr (take 220 text)))"

definition extract_from_braces :: "pylib \<Rightarrow> pystr \<Rightarrow> exn + pyval" where
  "extract_from_braces L text =
     (case find_sub [123] text of
        None \<Rightarrow> Inl (extract_failure L text)
      | Some start \<Rightarrow>
          (case scan_braces (drop start text) start 0 of
             None \<Rightarrow> Inl (extract_failure L text)
           | Some end_index \<Rightarrow>
               (case json_loads L (slice text start (end_index + 1)) of
                  Inr v \<Rightarrow> Inr v
                | Inl e \<Rightarrow>
                    if is_JSONDecodeError e then
                      (case literal_eval L (slice text start (end_index + 1)) of
                         Inr parsed \<Rightarrow>
                           if isinstance_dict parsed then Inr parsed
                           else Inl (extract_failure L text)
                       | Inl e' \<Rightarrow>
                           if is_ValueError e' \<or> is_SyntaxError e'
                           then Inl (extract_failure L text) else Inl e')
                    else Inl e)))"

definition extract_from_fence :: "pylib \<Rightarrow> pystr \<Rightarrow> exn + pyval" where
  "extract_from_fence L text =
     (case fence_search text of
        None \<Rightarrow> extract_from_braces L text
      | Some g \<Rightarrow>
          (case json_loads L (py_strip g) of
             Inr v \<Rightarrow> Inr v
           | Inl e \<Rightarrow> if is_JSONDecodeError e then extract_from_braces L text else Inl e))"

definition extract_from_repair :: "pylib \<Rightarrow> pystr \<Rightarrow> exn + pyval" where
  "extract_from_repair L text =
     (case repair_json L of
        None \<Rightarrow> extract_from_fence L text
      | Some repair \<Rightarrow>
          (case repair text of
             Inl e \<Rightarrow> if is_Exception e then extract_from_fence L text else Inl e
           | Inr repaired \<Rightarrow>
               if isinstance_dict repaired then Inr repaired
               else (case repaired of
                       PStr s \<Rightarrow>
                         (case json_loads L s of
                            Inr v \<Rightarrow> Inr v
                          | Inl e \<Rightarrow>
                              if is_Exception e then extract_from_fence L text else Inl e)
                     | _ \<Rightarrow> extract_from_fence L text)))"

definition extract_json :: "pylib \<Rightarrow> pystr \<Rightarrow> exn + pyval" where
  "extract_json L text =
     (case json_loads L (py_strip text) of
        Inr v \<Rightarrow> Inr v
      | Inl e \<Rightarrow>
          if is_JSONDecodeError e then extract_from_repair L (py_strip text) else Inl e)"

section \<open>The salvager\<close>

subsection \<open>The key markers\<close>

text \<open>
  The pattern \<open>"key"\s*:\<close> at the head of \<open>s\<close>: the length of the match. The key
  holds letters and underscores only, so \<open>re.escape\<close> leaves it a literal.
\<close>

definition marker_len :: "pystr \<Rightarrow> pystr \<Rightarrow> nat option" where
  "marker_len key s =
     (if prefix (34 # key @ [34]) s then
        (case dropWhile is_space (drop (length key + 2) s) of
           [] \<Rightarrow> None
         | c # _ \<Rightarrow>
             if c = 58
             then Some (length key + 2 + length (takeWhile is_space (drop (length key + 2) s)) + 1)
             else None)
      else None)"

text \<open>\<open>re.search\<close> of that pattern: start and end of the leftmost match.\<close>

fun search_marker :: "pystr \<Rightarrow> pystr \<Rightarrow> nat \<Rightarrow> (nat \<times> nat) option" where
  "search_marker key [] i = None"
| "search_marker key (c # cs) i =
     (case marker_len key (c # cs) of
        Some n \<Rightarrow> Some (i, i + n)
      | None \<Rightarrow> search_marker key cs (i + 1))"

text \<open>
  The pattern \<open>,?\s*"key"\s*:\<close> at the head of \<open>s\<close>: an optional comma, white space,
  the marker.
\<close>

definition sep_marker_at :: "pystr \<Rightarrow> pystr \<Rightarrow> bool" where
  "sep_marker_at key s =
     (marker_len key
        (dropWhile is_space (case s of [] \<Rightarrow> [] | c # r \<Rightarrow> if c = 44 then r else c # r)) \<noteq> None)"

fun search_sep_marker :: "pystr \<Rightarrow> pystr \<Rightarrow> nat \<Rightarrow> nat option" where
  "search_sep_marker key [] i = None"
| "search_sep_marker key (c # cs) i =
     (if sep_marker_at key (c # cs) then Some i else search_sep_marker key cs (i + 1))"

text \<open>
  The inner loop \<open>for next_key in EXPECTED_KEYS[idx + 1:]\<close>: the end of the span, which
  starts as \<open>len(text)\<close>.
\<close>

fun find_end :: "pystr list \<Rightarrow> pystr \<Rightarrow> nat \<Rightarrow> nat \<Rightarrow> nat" where
  "find_end [] text start end_index = end_index"
| "find_end (next_key # next_keys) text start end_index =
     (case search_sep_marker next_key (drop start text) 0 of
        Some j \<Rightarrow> start + j
      | None \<Rightarrow> find_end next_keys text start end_index)"

text \<open>\<open>text[start:end].strip().rstrip(",").strip()\<close>\<close>

definition raw_value :: "pystr \<Rightarrow> nat \<Rightarrow> nat \<Rightarrow> pystr" where
  "raw_value text start end_index =
     py_strip (rstrip_by (\<lambda>c. c = 44) (py_strip (slice text start end_index)))"

subsection \<open>The list fields\<close>

text \<open>
  \<open>re.search(r"\[(.*?)]", raw_value, re.DOTALL)\<close>, group 1: at the leftmost bracket
  that has a closing bracket after it, the text up to the first closing bracket.
\<close>

fun search_array :: "pystr \<Rightarrow> pystr option" where
  "search_array [] = None"
| "search_array (c # cs) =
     (if c = 91 \<and> 93 \<in> set cs then Some (takeWhile (\<lambda>x. x \<noteq> 93) cs) else search_array cs)"

text \<open>
  \<open>re.findall(r'"([^"\n]+)"', inside)\<close>: at a quote, the longest run of characters
  that are neither a quote nor a newline must be non-empty and end at a quote; the scan
  goes on after that quote, and one character further where there is no match.
\<close>

definition item_char :: "nat \<Rightarrow> bool" where
  "item_char c = (c \<noteq> 34 \<and> c \<noteq> 10)"

function findall_quoted :: "pystr \<Rightarrow> pystr list" where
  "findall_quoted [] = []"
| "findall_quoted (c # cs) =
     (if c = 34 then
        (case dropWhile item_char cs of
           [] \<Rightarrow> findall_quoted cs
         | q # after \<Rightarrow>
             if takeWhile item_char cs \<noteq> [] \<and> q = 34
             then takeWhile item_char cs # findall_quoted after
             else findall_quoted cs)
      else findall_quoted cs)"
  by pat_completeness auto
termination
proof (relation "measure length")
  fix c :: nat and cs q after
  assume "dropWhile item_char cs = q # after"
  then have "length (q # after) \<le> length cs"
    by (metis length_dropWhile_le)
  then show "(after, c # cs) \<in> measure length" by simp
qed auto

text \<open>
  \<open>re.split(r"[\n;]+", inside)\<close>: the pieces between the longest runs of newlines
  and semicolons, the empty pieces at either end included.
\<close>

definition is_sep :: "nat \<Rightarrow> bool" where
  "is_sep c = (c = 10 \<or> c = 59)"

function split_seps :: "pystr \<Rightarrow> pystr list" where
  "split_seps s =
     (case dropWhile (\<lambda>c. \<not> is_sep c) s of
        [] \<Rightarrow> [takeWhile (\<lambda>c. \<not> is_sep c) s]
      | r # rest \<Rightarrow> takeWhile (\<lambda>c. \<not> is_sep c) s # split_seps (dropWhile is_sep rest))"
  by pat_completeness auto
termination
proof (relation "measure length")
  fix s :: pystr and r rest
  assume a: "dropWhile (\<lambda>c. \<not> is_sep c) s = r # rest"
  have "length (dropWhile is_sep rest) \<le> length rest" by (rule length_dropWhile_le)
  moreover have "length (r # rest) \<le> length s" by (metis a length_dropWhile_le)
  ultimately show "(dropWhile is_sep rest, s) \<in> measure length" by simp
qed auto

declare split_seps.simps [simp del]

text \<open>\<open>s.strip(" -\<bullet>\t\r\n")\<close>: the bullet is U+2022.\<close>

definition is_list_mark :: "nat \<Rightarrow> bool" where
  "is_list_mark c = (c = 32 \<or> c = 45 \<or> c = 8226 \<or> c = 9 \<or> c = 13 \<or> c = 10)"

definition list_value :: "pystr \<Rightarrow> pyval" where
  "list_value raw =
     (let inside = (case search_array raw of Some g \<Rightarrow> g | None \<Rightarrow> raw);
          items = findall_quoted inside
      in PList (map PStr
           (if items = []
            then filter (\<lambda>s. s \<noteq> []) (map (strip_by is_list_mark) (split_seps inside))
            else items)))"

subsection \<open>The text fields\<close>

text \<open>
  \<open>re.search(r'^"(.*)"$', raw_value, re.DOTALL)\<close>, group 1: the string starts with a
  quote and its last quote is the last character, or the one before a final newline.
\<close>

definition match_quoted :: "pystr \<Rightarrow> pystr option" where
  "match_quoted s =
     (case s of
        [] \<Rightarrow> None
      | c # r \<Rightarrow>
          if c = 34 \<and> r \<noteq> [] \<and> last r = 34 then Some (butlast r)
          else if c = 34 \<and> 2 \<le> length r \<and> last r = 10 \<and> last (butlast r) = 34
          then Some (butlast (butlast r))
          else None)"

text \<open>\<open>val.replace('\\"', '"')\<close>: a backslash before a quote is dropped.\<close>

fun replace_escaped :: "pystr \<Rightarrow> pystr" where
  "replace_escaped (b # q # r) =
     (if b = 92 \<and> q = 34 then 34 # replace_escaped r else b # replace_escaped (q # r))"
| "replace_escaped s = s"

definition text_value :: "pystr \<Rightarrow> pyval" where
  "text_value raw =
     PStr (py_strip (replace_escaped (case match_quoted raw of Some g \<Rightarrow> g | None \<Rightarrow> raw)))"

subsection \<open>\<open>_salvage_json_like\<close>\<close>

text \<open>One round of the loop \<open>for idx, key in enumerate(EXPECTED_KEYS)\<close>.\<close>

definition salvage_key ::
  "pystr \<Rightarrow> nat \<times> pystr \<Rightarrow> (pyval \<times> pyval) list \<Rightarrow> (pyval \<times> pyval) list" where
  "salvage_key text ik result =
     (case search_marker (snd ik) text 0 of
        None \<Rightarrow> result
      | Some m \<Rightarrow>
          (let start = snd m;
               end_index = find_end (drop (fst ik + 1) EXPECTED_KEYS) text start (length text);
               raw = raw_value text start end_index
           in if raw = [] then result
              else if snd ik \<in> set list_fields
              then dict_set result (PStr (snd ik)) (list_value raw)
              else dict_set result (PStr (snd ik)) (text_value raw)))"

definition salvage_json_like :: "pystr \<Rightarrow> pyval" where
  "salvage_json_like text =
     (if text = [] then PDict []
      else PDict (fold (salvage_key text) (enumerate 0 EXPECTED_KEYS) []))"

section \<open>\<open>_parse_model_json\<close>\<close>

definition parse_model_json :: "pylib \<Rightarrow> pystr \<Rightarrow> exn + pyval" where
  "parse_model_json L text =
     (case extract_json L text of
        Inr v \<Rightarrow> Inr v
      | Inl e \<Rightarrow>
          if is_ValueError e then
            (case repair_json L of
               None \<Rightarrow> Inr (salvage_json_like text)
             | Some repair \<Rightarrow>
                 (case repair text of
                    Inl e' \<Rightarrow> if is_Exception e' then Inr (salvage_json_like text) else Inl e'
                  | Inr repaired \<Rightarrow>
                      if isinstance_dict repaired then Inr repaired
                      else (case repaired of
                              PStr s \<Rightarrow>
                                (case json_loads L s of
                                   Inr v \<Rightarrow> Inr v
                                 | Inl e' \<Rightarrow>
                                     if is_Exception e' then Inr (salvage_json_like text)
                                     else Inl e')
                            | _ \<Rightarrow> Inr (salvage_json_like text))))
          else Inl e)"

section \<open>The upstream call\<close>

text \<open>
  The environment: the two settings read at import, and \<open>requests.post\<close>, which
  takes the URL, the query parameters, the JSON body and the timeout, and returns a
  response or raises (no connection, timeout). A response has a status code and a body
  that \<open>resp.json()\<close> decodes or fails to decode.
\<close>

record config =
  GEMINI_API_KEY :: pystr
  GEMINI_MODEL :: pystr

record http_response =
  status_code :: nat
  json_body :: "exn + pyval"

type_synonym http_post = "pystr \<Rightarrow> pyval \<Rightarrow> pyval \<Rightarrow> nat \<Rightarrow> exn + http_response"

definition py_s :: "string \<Rightarrow> pyval" where
  "py_s cs = PStr (ustr cs)"

definition py_dict :: "(string \<times> pyval) list \<Rightarrow> pyval" where
  "py_dict kvs = PDict (map (\<lambda>kv. (PStr (ustr (fst kv)), snd kv)) kvs)"

definition RESPONSE_JSON_SCHEMA :: pyval where
  "RESPONSE_JSON_SCHEMA =
     py_dict [
       (''type'', py_s ''object''),
       (''properties'', py_dict [
          (''market_competition'', py_dict [(''type'', py_s ''string'')]),
          (''monetization_potential'', py_dict [(''type'', py_s ''string'')]),
          (''target_users'', py_dict [(''type'', py_s ''string'')]),
          (''feature_suggestions'',
             py_dict [(''type'', py_s ''array''), (''items'', py_dict [(''type'', py_s ''string'')])]),
          (''mvp_plan'',
             py_dict [(''type'', py_s ''array''), (''items'', py_dict [(''type'', py_s ''string'')])]),
          (''risk_score'', py_dict [(''type'', py_s ''string'')]),
          (''summary'', py_dict [(''type'', py_s ''string'')])]),
       (''required'', PList (map PStr EXPECTED_KEYS)),
       (''additionalProperties'', PBool False)]"

definition request_body :: "pystr \<Rightarrow> nat \<Rightarrow> 64 word \<Rightarrow> pyval" where
  "request_body prompt_text max_tokens temperature =
     py_dict [
       (''contents'', PList [py_dict [(''parts'', PList [py_dict [(''text'', PStr prompt_text)]])]]),
       (''generationConfig'', py_dict [
          (''temperature'', PFloat temperature),
          (''maxOutputTokens'', PInt (int max_tokens)),
          (''responseMimeType'', py_s ''application/json''),
          (''responseJsonSchema'', RESPONSE_JSON_SCHEMA)])]"

definition gemini_url :: "config \<Rightarrow> pystr" where
  "gemini_url cfg =
     ustr ''https://generativelanguage.googleapis.com/v1beta/models/'' @ GEMINI_MODEL cfg @
     ustr '':generateContent''"

text \<open>\<open>resp.raise_for_status()\<close>: a status from 400 to 599 raises.\<close>

definition raise_for_status :: "http_response \<Rightarrow> exn option" where
  "raise_for_status resp =
     (if 400 \<le> status_code resp \<and> status_code resp < 600
      then Some (HTTPError (status_code resp)) else None)"

text \<open>
  \<open>x[0]\<close>. A dict is looked up under the key \<open>0\<close>, which the keys \<open>False\<close>,
  \<open>0.0\<close> and \<open>0j\<close> equal too.
\<close>

fun is_zero_key :: "pyval \<Rightarrow> bool" where
  "is_zero_key (PInt n) = (n = 0)"
| "is_zero_key (PBool b) = (b = False)"
| "is_zero_key (PFloat w) = (take_bit 63 w = 0)"
| "is_zero_key (PComplex re im) = (take_bit 63 re = 0 \<and> take_bit 63 im = 0)"
| "is_zero_key _ = False"

fun py_first :: "pyval \<Rightarrow> exn + pyval" where
  "py_first (PList xs) = (case xs of [] \<Rightarrow> Inl IndexError | x # _ \<Rightarrow> Inr x)"
| "py_first (PTuple xs) = (case xs of [] \<Rightarrow> Inl IndexError | x # _ \<Rightarrow> Inr x)"
| "py_first (PStr s) = (case s of [] \<Rightarrow> Inl IndexError | c # _ \<Rightarrow> Inr (PStr [c]))"
| "py_first (PBytes bs) = (case bs of [] \<Rightarrow> Inl IndexError | b # _ \<Rightarrow> Inr (PInt (int b)))"
| "py_first (PDict kvs) =
     (case filter (\<lambda>kv. is_zero_key (fst kv)) kvs of [] \<Rightarrow> Inl KeyError | kv # _ \<Rightarrow> Inr (snd kv))"
| "py_first _ = Inl TypeError"

text \<open>\<open>candidate.get(key, default)\<close>\<close>

fun py_get_default :: "pyval \<Rightarrow> pystr \<Rightarrow> pyval \<Rightarrow> exn + pyval" where
  "py_get_default (PDict kvs) key dflt =
     (case map_of kvs (PStr key) of None \<Rightarrow> Inr dflt | Some v \<Rightarrow> Inr v)"
| "py_get_default _ key dflt = Inl AttributeError"

text \<open>
  The \<open>try\<close> block of \<open>_call_gemini\<close>:
  \<open>data["candidates"][0]\<close>, \<open>candidate["content"]["parts"][0]["text"]\<close>,
  \<open>candidate.get("finishReason", "")\<close>.
\<close>

definition read_candidate :: "pyval \<Rightarrow> exn + (pyval \<times> pyval)" where
  "read_candidate data =
     (case py_getitem data (ustr ''candidates'') of Inl e \<Rightarrow> Inl e | Inr cs \<Rightarrow>
     (case py_first cs of Inl e \<Rightarrow> Inl e | Inr candidate \<Rightarrow>
     (case py_getitem candidate (ustr ''content'') of Inl e \<Rightarrow> Inl e | Inr content \<Rightarrow>
     (case py_getitem content (ustr ''parts'') of Inl e \<Rightarrow> Inl e | Inr parts \<Rightarrow>
     (case py_first parts of Inl e \<Rightarrow> Inl e | Inr part \<Rightarrow>
     (case py_getitem part (ustr ''text'') of Inl e \<Rightarrow> Inl e | Inr text_1 \<Rightarrow>
     (case py_get_default candidate (ustr ''finishReason'') (PStr []) of
        Inl e \<Rightarrow> Inl e
      | Inr finish_reason \<Rightarrow> Inr (text_1, finish_reason))))))))"

definition call_gemini ::
  "pylib \<Rightarrow> config \<Rightarrow> http_post \<Rightarrow> pystr \<Rightarrow> nat \<Rightarrow> 64 word \<Rightarrow> exn + (pyval \<times> pyval)" where
  "call_gemini L cfg post prompt_text max_tokens temperature =
     (case post (gemini_url cfg) (py_dict [(''key'', PStr (GEMINI_API_KEY cfg))])
             (request_body prompt_text max_tokens temperature) 45 of
        Inl e \<Rightarrow> Inl e
      | Inr resp \<Rightarrow>
          (case raise_for_status resp of
             Some e \<Rightarrow> Inl e
           | None \<Rightarrow>
               (case json_body resp of
                  Inl e \<Rightarrow> Inl e
                | Inr data \<Rightarrow>
                    (case read_candidate data of
                       Inr r \<Rightarrow> Inr r
                     | Inl e \<Rightarrow>
                         if is_lookup_or_type_error e
                         then Inl (RuntimeError
                                (ustr ''Unexpected Gemini response format: '' @
                                 py_str (py_repr L) data))
                         else Inl e))))"

section \<open>The orchestrator\<close>

definition prompt_1 :: "pystr \<Rightarrow> pystr" where
  "prompt_1 idea =
     ustr ''You are a practical startup advisor for solo developers. '' @
     ustr ''Analyze the project idea and keep answers concise and concrete. '' @
     ustr ''Project idea:'' @ [10] @ idea"

definition prompt_2 :: "pystr \<Rightarrow> pystr" where
  "prompt_2 idea =
     ustr ''Retry the same analysis. '' @
     ustr ''Keep each paragraph under 40 words and arrays short.'' @
     [10, 10] @ ustr ''Project idea:'' @ [10] @ idea"

text \<open>The two temperatures, 0.35 and 0.2, as doubles.\<close>

definition temperature_1 :: "64 word" where
  "temperature_1 = 0x3FD6666666666666"

definition temperature_2 :: "64 word" where
  "temperature_2 = 0x3FC999999999999A"

text \<open>
  \<open>_parse_model_json(text)\<close> on what the upstream sent as text: the first thing done
  with it is \<open>text.strip()\<close>, which a value of a JSON document has only when it is
  a string.
\<close>

definition parse_text :: "pylib \<Rightarrow> pyval \<Rightarrow> exn + pyval" where
  "parse_text L t = (case t of PStr s \<Rightarrow> parse_model_json L s | _ \<Rightarrow> Inl AttributeError)"

text \<open>\<open>{finish or 'unknown'}\<close> in the f-string.\<close>

definition finish_text :: "pylib \<Rightarrow> pyval \<Rightarrow> pystr" where
  "finish_text L finish = py_str (py_repr L) (if truthy finish then finish else py_s ''unknown'')"

definition fallback_payload :: "pylib \<Rightarrow> pyval \<Rightarrow> pyval \<Rightarrow> pyval" where
  "fallback_payload L finish_1 finish_2 =
     py_dict [
       (''market_competition'', py_s ''Not provided''),
       (''monetization_potential'', py_s ''Not provided''),
       (''target_users'', py_s ''Not provided''),
       (''feature_suggestions'', PList []),
       (''mvp_plan'', PList []),
       (''risk_score'', py_s ''Not provided''),
       (''summary'', PStr (ustr ''The model response was unusable. '' @
          ustr ''finishReason(s): '' @ finish_text L finish_1 @ ustr '', '' @
          finish_text L finish_2 @ ustr ''.''))]"

definition analyze_project_idea :: "pylib \<Rightarrow> config \<Rightarrow> http_post \<Rightarrow> pystr \<Rightarrow> exn + pyval" where
  "analyze_project_idea L cfg post idea =
     (if GEMINI_API_KEY cfg = [] then Inl (RuntimeError (ustr ''Missing GEMINI_API_KEY in environment.''))
      else
        (case call_gemini L cfg post (prompt_1 idea) 1400 temperature_1 of
           Inl e \<Rightarrow> Inl e
         | Inr r1 \<Rightarrow>
        (case parse_text L (fst r1) of
           Inl e \<Rightarrow> Inl e
         | Inr parsed_1 \<Rightarrow>
             if truthy parsed_1 then validate_response (py_repr L) parsed_1
             else
               (case call_gemini L cfg post (prompt_2 idea) 1800 temperature_2 of
                  Inl e \<Rightarrow> Inl e
                | Inr r2 \<Rightarrow>
               (case parse_text L (fst r2) of
                  Inl e \<Rightarrow> Inl e
                | Inr parsed_2 \<Rightarrow>
                    if truthy parsed_2 then validate_response (py_repr L) parsed_2
                    else validate_response (py_repr L)
                           (fallback_payload L (snd r1) (snd r2)))))))"

section \<open>Definitions used in the statements\<close>




subsection \<open>The strategies of the extractor\<close>











subsection \<open>The two upstream attempts\<close>




subsection \<open>Sample environments\<close>

text \<open>
  Concrete values for the parameters, for the examples. \<open>sample_loads\<close> is
  \<open>json.loads\<close> on the texts of the examples: \<open>[1]\<close> is the JSON array of one
  number, and the other texts of the examples are not JSON documents. In
  \<open>sample_lib\<close> the optional \<open>json_repair\<close> is not installed; no example reaches
  \<open>literal_eval\<close> or \<open>repr\<close>. \<open>gemini_response\<close> is a well-formed response
  of the upstream API, and \<open>first_then\<close> answers the first attempt's request with
  one outcome and every other request with another.
\<close>

definition sample_loads :: "pystr \<Rightarrow> exn + pyval" where
  "sample_loads s = (if s = ustr ''[1]'' then Inr (PList [PInt 1]) else Inl JSONDecodeError)"

definition sample_lib :: pylib where
  "sample_lib =
     \<lparr>json_loads = sample_loads, repair_json = None,
      literal_eval = (\<lambda>s. Inl SyntaxError), py_repr = (\<lambda>v. [])\<rparr>"

definition sample_config :: config where
  "sample_config = \<lparr>GEMINI_API_KEY = ustr ''k'', GEMINI_MODEL = ustr ''gemini-2.5-flash''\<rparr>"

definition gemini_response :: "pystr \<Rightarrow> pystr \<Rightarrow> http_response" where
  "gemini_response generated finish =
     \<lparr>status_code = 200,
      json_body = Inr (py_dict [(''candidates'', PList [py_dict [
        (''content'', py_dict [(''parts'', PList [py_dict [(''text'', PStr generated)]])]),
        (''finishReason'', PStr finish)]])])\<rparr>"

definition first_then :: "pystr \<Rightarrow> exn + http_response \<Rightarrow> exn + http_response \<Rightarrow> http_post" where
  "first_then idea r1 r2 url params body timeout =
     (if body = request_body (prompt_1 idea) 1400 temperature_1 then r1 else r2)"

subsection \<open>The markers and spans of the salvager\<close>

text \<open>
  What the description of the salvager speaks of, as properties of the text alone. A
  marker of a key is the key in double quotes, white space, and a colon.
  \<open>occurs_marker\<close>: the text holds a marker of the key. \<open>marker_at\<close>: a marker
  of the key, \<open>n\<close> characters long, starts at position \<open>i\<close>. \<open>first_marker\<close>:
  the first marker of the key runs from \<open>ms\<close> to \<open>me\<close>.
\<close>

definition occurs_marker :: "pystr \<Rightarrow> pystr \<Rightarrow> bool" where
  "occurs_marker key text =
     (\<exists>before ws after. text = before @ 34 # key @ 34 # ws @ 58 # after \<and> list_all is_space ws)"

definition marker_at :: "pystr \<Rightarrow> pystr \<Rightarrow> nat \<Rightarrow> nat \<Rightarrow> bool" where
  "marker_at key text i n =
     (i < length text \<and>
      (\<exists>ws after. drop i text = 34 # key @ 34 # ws @ 58 # after \<and> list_all is_space ws \<and>
         n = length key + length ws + 3))"

definition first_marker :: "pystr \<Rightarrow> pystr \<Rightarrow> nat \<Rightarrow> nat \<Rightarrow> bool" where
  "first_marker key text ms me =
     (ms \<le> me \<and> marker_at key text ms (me - ms) \<and> (\<forall>i<ms. \<forall>n. \<not> marker_at key text i n))"

text \<open>
  The boundary of a span is a marker of a later key together with the comma and the
  white space before it. \<open>sep_marker_first\<close>: the first such boundary for the key at
  or after \<open>start\<close> is at \<open>p\<close>. \<open>no_sep_marker\<close>: there is none. \<open>span_end\<close>
  goes through the later keys in the order of their declaration: the span ends at the
  first boundary of the first key that has one, and at the end of the text when no
  later key has one.
\<close>

definition sep_marker_here :: "pystr \<Rightarrow> pystr \<Rightarrow> bool" where
  "sep_marker_here key s =
     (\<exists>comma ws ws' after.
        s = comma @ ws @ 34 # key @ 34 # ws' @ 58 # after \<and> (comma = [] \<or> comma = [44]) \<and>
        list_all is_space ws \<and> list_all is_space ws')"

definition sep_marker_first :: "pystr \<Rightarrow> pystr \<Rightarrow> nat \<Rightarrow> nat \<Rightarrow> bool" where
  "sep_marker_first key text start p =
     (start \<le> p \<and> p < length text \<and> sep_marker_here key (drop p text) \<and>
      (\<forall>i. start \<le> i \<and> i < p \<longrightarrow> \<not> sep_marker_here key (drop i text)))"

definition no_sep_marker :: "pystr \<Rightarrow> pystr \<Rightarrow> nat \<Rightarrow> bool" where
  "no_sep_marker key text start =
     (\<forall>i. start \<le> i \<and> i < length text \<longrightarrow> \<not> sep_marker_here key (drop i text))"

fun span_end :: "pystr list \<Rightarrow> pystr \<Rightarrow> nat \<Rightarrow> nat \<Rightarrow> bool" where
  "span_end [] text start e = (e = length text)"
| "span_end (key # keys) text start e =
     (sep_marker_first key text start e \<or>
      (no_sep_marker key text start \<and> span_end keys text start e))"

text \<open>
  The rule of the claim about spans, as stated: the least boundary of any later key, or
  the end of the text.
\<close>

definition earliest_later_marker :: "pystr list \<Rightarrow> pystr \<Rightarrow> nat \<Rightarrow> nat" where
  "earliest_later_marker later text start =
     fold (\<lambda>key e. case search_sep_marker key (drop start text) 0 of
                      None \<Rightarrow> e
                    | Some j \<Rightarrow> min e (start + j))
       later (length text)"

text \<open>
  The trimmed span, the value a span gives its key, and the value the loop gives the key
  at one index. A string is quoted when it starts and ends with a double quote, two
  characters at least; \<open>unquote\<close> drops them.
\<close>

definition trim_span :: "pystr \<Rightarrow> pystr" where
  "trim_span span = py_strip (rstrip_by (\<lambda>c. c = 44) (py_strip span))"

definition quoted :: "pystr \<Rightarrow> bool" where
  "quoted s = (2 \<le> length s \<and> hd s = 34 \<and> last s = 34)"

definition unquote :: "pystr \<Rightarrow> pystr" where
  "unquote s = butlast (tl s)"

definition span_value :: "pystr \<Rightarrow> pystr \<Rightarrow> pyval option" where
  "span_value key span =
     (if trim_span span = [] then None
      else if key \<in> set list_fields then Some (list_value (trim_span span))
      else Some (text_value (trim_span span)))"

definition key_value :: "pystr \<Rightarrow> nat \<Rightarrow> pystr \<Rightarrow> pyval option" where
  "key_value text idx key =
     (case search_marker key text 0 of
        None \<Rightarrow> None
      | Some m \<Rightarrow>
          span_value key
            (slice text (snd m)
               (find_end (drop (idx + 1) EXPECTED_KEYS) text (snd m) (length text))))"

text \<open>Sample texts: \<open>dq\<close> puts a literal in double quotes.\<close>

definition dq :: "string \<Rightarrow> pystr" where
  "dq cs = 34 # ustr cs @ [34]"

definition text_out_of_order :: pystr where
  "text_out_of_order =
     dq ''target_users'' @ ustr '':'' @ dq ''a'' @ ustr '','' @
     dq ''summary'' @ ustr '':'' @ dq ''b'' @ ustr '','' @
     dq ''risk_score'' @ ustr '':'' @ dq ''c''"

definition text_two_keys :: pystr where
  "text_two_keys = dq ''risk_score'' @ ustr '':1,'' @ dq ''summary'' @ ustr '':2''"

definition text_quoted :: pystr where
  "text_quoted = dq ''summary'' @ [58, 34, 97, 92, 34, 34]"

definition text_unquoted :: pystr where
  "text_unquoted = dq ''summary'' @ [58, 97, 92, 34, 98]"


section \<open>Properties of the validator\<close>

lemma dict_set_map_of: "map_of (dict_set d k v) = (map_of d)(k \<mapsto> v)"
  by (induction d) (auto simp: fun_eq_iff)

lemma dict_set_keys: "set (map fst (dict_set d k v)) = insert k (set (map fst d))"
proof -
  have "set (map fst (dict_set d k v)) = dom (map_of (dict_set d k v))"
    by (simp add: dom_map_of_conv_image_fst)
  also have "\<dots> = insert k (dom (map_of d))"
    by (simp add: dict_set_map_of)
  finally show ?thesis by (simp add: dom_map_of_conv_image_fst)
qed





























section \<open>Properties of the extractor\<close>






section \<open>Properties of the orchestrator\<close>

lemma read_candidate_gemini_response:
  "read_candidate (py_dict [(''candidates'', PList [py_dict [
        (''content'', py_dict [(''parts'', PList [py_dict [(''text'', PStr generated)]])]),
        (''finishReason'', PStr finish)]])]) = Inr (PStr generated, PStr finish)"
  by (simp add: read_candidate_def py_dict_def ustr_def)

lemma prompts_differ: "request_body (prompt_2 idea) 1800 temperature_2 \<noteq> request_body (prompt_1 idea) 1400 temperature_1"
  by (simp add: request_body_def py_dict_def prompt_1_def prompt_2_def ustr_def)



lemma first_then_first:
  "first_then idea r1 r2 url params (request_body (prompt_1 idea) 1400 temperature_1) timeout = r1"
  by (simp add: first_then_def)

lemma first_then_second:
  "first_then idea r1 r2 url params (request_body (prompt_2 idea) 1800 temperature_2) timeout = r2"
  by (simp add: first_then_def prompts_differ)

lemma call_gemini_response:
  assumes "post (gemini_url cfg) (py_dict [(''key'', PStr (GEMINI_API_KEY cfg))])
             (request_body p n t) 45 = Inr (gemini_response generated finish)"
  shows "call_gemini L cfg post p n t = Inr (PStr generated, PStr finish)"
  using assms
  by (simp add: call_gemini_def gemini_response_def raise_for_status_def
      read_candidate_gemini_response)

lemma sample_key: "GEMINI_API_KEY sample_config \<noteq> []"
  by (simp add: sample_config_def ustr_def)

lemma parse_text_empty: "parse_text sample_lib (PStr []) = Inr (PDict [])"
  by (simp add: parse_text_def parse_model_json_def extract_json_def extract_from_repair_def
      extract_from_fence_def extract_from_braces_def extract_failure_def sample_lib_def
      sample_loads_def py_strip_def strip_by_def lstrip_by_def rstrip_by_def ustr_def
      salvage_json_like_def)



text \<open>
  Claim C8. When both upstream calls return and both texts parse to an empty candidate,
  the orchestrator returns the placeholder: the summary names the finish reason of
  each attempt, with \<open>unknown\<close> for one that is absent or empty, and the other six
  fields hold their defaults; the validator leaves the placeholder as it is.
\<close>

theorem placeholder_after_two_empty_parses:
  assumes "GEMINI_API_KEY cfg \<noteq> []"
    and "call_gemini L cfg post (prompt_1 idea) 1400 temperature_1 = Inr (text_1, finish_1)"
    and "parse_text L text_1 = Inr parsed_1" and "\<not> truthy parsed_1"
    and "call_gemini L cfg post (prompt_2 idea) 1800 temperature_2 = Inr (text_2, finish_2)"
    and "parse_text L text_2 = Inr parsed_2" and "\<not> truthy parsed_2"
  shows "analyze_project_idea L cfg post idea =
     Inr (PDict [
       (PStr (ustr ''market_competition''), PStr (ustr ''Not provided'')),
       (PStr (ustr ''monetization_potential''), PStr (ustr ''Not provided'')),
       (PStr (ustr ''target_users''), PStr (ustr ''Not provided'')),
       (PStr (ustr ''feature_suggestions''), PList []),
       (PStr (ustr ''mvp_plan''), PList []),
       (PStr (ustr ''risk_score''), PStr (ustr ''Not provided'')),
       (PStr (ustr ''summary''),
        PStr (ustr ''The model response was unusable. finishReason(s): '' @
          (if truthy finish_1 then py_str (py_repr L) finish_1 else ustr ''unknown'') @
          ustr '', '' @
          (if truthy finish_2 then py_str (py_repr L) finish_2 else ustr ''unknown'') @
          ustr ''.''))])"
proof -
  have "validate_response (py_repr L) (fallback_payload L finish_1 finish_2) =
      Inr (fallback_payload L finish_1 finish_2)"
    by (simp add: validate_response_def fallback_payload_def py_dict_def py_s_def
        required_keys_def wrap_list_field_def clean_list_field_def clean_items_def ustr_def)
  moreover have "fallback_payload L finish_1 finish_2 = PDict [
       (PStr (ustr ''market_competition''), PStr (ustr ''Not provided'')),
       (PStr (ustr ''monetization_potential''), PStr (ustr ''Not provided'')),
       (PStr (ustr ''target_users''), PStr (ustr ''Not provided'')),
       (PStr (ustr ''feature_suggestions''), PList []),
       (PStr (ustr ''mvp_plan''), PList []),
       (PStr (ustr ''risk_score''), PStr (ustr ''Not provided'')),
       (PStr (ustr ''summary''),
        PStr (ustr ''The model response was unusable. finishReason(s): '' @
          (if truthy finish_1 then py_str (py_repr L) finish_1 else ustr ''unknown'') @
          ustr '', '' @
          (if truthy finish_2 then py_str (py_repr L) finish_2 else ustr ''unknown'') @
          ustr ''.''))]"
    by (simp add: fallback_payload_def py_dict_def py_s_def finish_text_def py_str_def ustr_def)
  ultimately show ?thesis
    using assms by (simp add: analyze_project_idea_def)
qed

text \<open>
  A run of the theorem: an empty first text cut off by the token limit, a blank second
  text with no finish reason.
\<close>

theorem placeholder_after_two_empty_parses_witness:
  "analyze_project_idea sample_lib sample_config
     (first_then (ustr ''a todo app'') (Inr (gemini_response [] (ustr ''MAX_TOKENS'')))
        (Inr (gemini_response (ustr ''  '') [])))
     (ustr ''a todo app'') =
   Inr (PDict [
       (PStr (ustr ''market_competition''), PStr (ustr ''Not provided'')),
       (PStr (ustr ''monetization_potential''), PStr (ustr ''Not provided'')),
       (PStr (ustr ''target_users''), PStr (ustr ''Not provided'')),
       (PStr (ustr ''feature_suggestions''), PList []),
       (PStr (ustr ''mvp_plan''), PList []),
       (PStr (ustr ''risk_score''), PStr (ustr ''Not provided'')),
       (PStr (ustr ''summary''),
        PStr (ustr ''The model response was unusable. finishReason(s): MAX_TOKENS, unknown.''))])"
proof -
  let ?idea = "ustr ''a todo app''"
  let ?post = "first_then ?idea (Inr (gemini_response [] (ustr ''MAX_TOKENS'')))
        (Inr (gemini_response (ustr ''  '') []))"
  have b: "call_gemini sample_lib sample_config ?post (prompt_1 ?idea) 1400 temperature_1 =
      Inr (PStr [], PStr (ustr ''MAX_TOKENS''))"
    by (rule call_gemini_response) (simp add: first_then_first)
  have c: "call_gemini sample_lib sample_config ?post (prompt_2 ?idea) 1800 temperature_2 =
      Inr (PStr (ustr ''  ''), PStr [])"
    by (rule call_gemini_response) (simp add: first_then_second)
  have d: "parse_text sample_lib (PStr (ustr ''  '')) = Inr (PDict [])"
    by (simp add: parse_text_def parse_model_json_def extract_json_def extract_from_repair_def
        extract_from_fence_def extract_from_braces_def extract_failure_def sample_lib_def
        sample_loads_def py_strip_def strip_by_def lstrip_by_def rstrip_by_def is_space_def
        ustr_def salvage_json_like_def EXPECTED_KEYS_def salvage_key_def marker_len_def)
  show ?thesis
    using placeholder_after_two_empty_parses [OF sample_key b parse_text_empty _ c d]
    by (simp add: ustr_def py_str_def)
qed

text \<open>
  Claim C2 fails on the code. When the upstream returns the text \<open>[1]\<close>, the direct
  parse succeeds with a list; the list is true, so the validator is called on it, and
  storing the first default under a string key raises \<open>TypeError\<close>.
\<close>

theorem analyze_raises_on_json_array:
  "analyze_project_idea sample_lib sample_config
     (first_then (ustr ''a todo app'') (Inr (gemini_response (ustr ''[1]'') (ustr ''STOP'')))
        (Inr (gemini_response (ustr ''[1]'') (ustr ''STOP''))))
     (ustr ''a todo app'') = Inl TypeError"
proof -
  have "call_gemini sample_lib sample_config
      (first_then (ustr ''a todo app'') (Inr (gemini_response (ustr ''[1]'') (ustr ''STOP'')))
         (Inr (gemini_response (ustr ''[1]'') (ustr ''STOP''))))
      (prompt_1 (ustr ''a todo app'')) 1400 temperature_1 =
      Inr (PStr (ustr ''[1]''), PStr (ustr ''STOP''))"
    by (rule call_gemini_response) (simp add: first_then_first)
  moreover have "parse_text sample_lib (PStr (ustr ''[1]'')) = Inr (PList [PInt 1])"
    by (simp add: parse_text_def parse_model_json_def extract_json_def sample_lib_def
        sample_loads_def py_strip_def strip_by_def lstrip_by_def rstrip_by_def is_space_def
        ustr_def)
  moreover have "validate_response (py_repr sample_lib) (PList [PInt 1]) = Inl TypeError"
    by (simp add: validate_response_def required_keys_def)
  ultimately show ?thesis
    by (simp add: analyze_project_idea_def sample_key)
qed

section \<open>Properties of the salvager\<close>

lemma not_space_colon: "\<not> is_space 58"
  by (simp add: is_space_def)

lemma marker_len_Some_iff:
  "marker_len key s = Some n \<longleftrightarrow>
     (\<exists>ws rest. s = 34 # key @ 34 # ws @ 58 # rest \<and> list_all is_space ws \<and>
        n = length key + length ws + 3)"
proof
  assume a: "marker_len key s = Some n"
  then have p: "prefix (34 # key @ [34]) s"
    by (auto simp: marker_len_def split: if_splits)
  then obtain r where s: "s = (34 # key @ [34]) @ r" by (auto simp: prefix_def)
  then have r: "drop (length key + 2) s = r" by simp
  from a p r obtain rest where d: "dropWhile is_space r = 58 # rest"
    and n: "n = length key + 2 + length (takeWhile is_space r) + 1"
    by (auto simp: marker_len_def split: if_splits list.splits)
  have "r = takeWhile is_space r @ 58 # rest"
    using d by (metis takeWhile_dropWhile_id)
  moreover have "list_all is_space (takeWhile is_space r)"
    by (simp add: list_all_iff) (meson set_takeWhileD)
  ultimately show "\<exists>ws rest. s = 34 # key @ 34 # ws @ 58 # rest \<and> list_all is_space ws \<and>
        n = length key + length ws + 3"
    using s n by (intro exI [of _ "takeWhile is_space r"] exI [of _ rest]) auto
next
  assume "\<exists>ws rest. s = 34 # key @ 34 # ws @ 58 # rest \<and> list_all is_space ws \<and>
        n = length key + length ws + 3"
  then obtain ws rest where s: "s = 34 # key @ 34 # ws @ 58 # rest"
    and ws: "list_all is_space ws" and n: "n = length key + length ws + 3" by blast
  have p: "prefix (34 # key @ [34]) s" using s by (simp add: prefix_def)
  have r: "drop (length key + 2) s = ws @ 58 # rest" using s by simp
  have d: "dropWhile is_space (ws @ 58 # rest) = 58 # rest"
    using ws not_space_colon by (simp add: list_all_iff dropWhile_append)
  have t: "takeWhile is_space (ws @ 58 # rest) = ws"
    using ws not_space_colon by (simp add: list_all_iff takeWhile_append)
  have r': "drop (Suc (Suc (length key))) s = ws @ 58 # rest" using s by simp
  show "marker_len key s = Some n"
    unfolding marker_len_def using p by (simp add: r r' d t n)
qed

lemma occurs_marker_iff:
  "occurs_marker key text \<longleftrightarrow> (\<exists>j<length text. marker_len key (drop j text) \<noteq> None)"
proof
  assume "occurs_marker key text"
  then obtain before ws after where t: "text = before @ 34 # key @ 34 # ws @ 58 # after"
    and ws: "list_all is_space ws" by (auto simp: occurs_marker_def)
  have "drop (length before) text = 34 # key @ 34 # ws @ 58 # after" using t by simp
  then have "marker_len key (drop (length before) text) = Some (length key + length ws + 3)"
    using ws by (subst marker_len_Some_iff) blast
  moreover have "length before < length text" using t by simp
  ultimately show "\<exists>j<length text. marker_len key (drop j text) \<noteq> None" by force
next
  assume "\<exists>j<length text. marker_len key (drop j text) \<noteq> None"
  then obtain j n where "marker_len key (drop j text) = Some n" by auto
  then obtain ws rest where d: "drop j text = 34 # key @ 34 # ws @ 58 # rest"
    and ws: "list_all is_space ws" by (auto simp: marker_len_Some_iff)
  have "text = take j text @ 34 # key @ 34 # ws @ 58 # rest"
    using d by (metis append_take_drop_id)
  then show "occurs_marker key text" using ws unfolding occurs_marker_def by blast
qed

lemma search_marker_None_iff:
  "search_marker key s i = None \<longleftrightarrow> (\<forall>j<length s. marker_len key (drop j s) = None)"
proof (induction s arbitrary: i)
  case Nil
  then show ?case by simp
next
  case (Cons c cs)
  show ?case
  proof (cases "marker_len key (c # cs)")
    case None
    have "(\<forall>j<length (c # cs). marker_len key (drop j (c # cs)) = None) \<longleftrightarrow>
        (\<forall>j<length cs. marker_len key (drop j cs) = None)"
      using None by (auto simp: less_Suc_eq_0_disj)
    with None show ?thesis by (simp add: Cons.IH)
  next
    case (Some n)
    then show ?thesis by force
  qed
qed

lemma search_marker_Some_iff:
  "search_marker key s i = Some (a, b) \<longleftrightarrow>
     (\<exists>j<length s. a = i + j \<and> marker_len key (drop j s) = Some (b - a) \<and> a \<le> b \<and>
        (\<forall>j'<j. marker_len key (drop j' s) = None))"
proof (induction s arbitrary: i)
  case Nil
  then show ?case by simp
next
  case (Cons c cs)
  show ?case
  proof (cases "marker_len key (c # cs)")
    case (Some n)
    show ?thesis
    proof
      assume "search_marker key (c # cs) i = Some (a, b)"
      with Some have "a = i" "b = i + n" by auto
      with Some show "\<exists>j<length (c # cs). a = i + j \<and>
          marker_len key (drop j (c # cs)) = Some (b - a) \<and> a \<le> b \<and>
          (\<forall>j'<j. marker_len key (drop j' (c # cs)) = None)"
        by (intro exI [of _ 0]) simp
    next
      assume "\<exists>j<length (c # cs). a = i + j \<and>
          marker_len key (drop j (c # cs)) = Some (b - a) \<and> a \<le> b \<and>
          (\<forall>j'<j. marker_len key (drop j' (c # cs)) = None)"
      then obtain j where j: "a = i + j" "marker_len key (drop j (c # cs)) = Some (b - a)"
        "a \<le> b" "\<forall>j'<j. marker_len key (drop j' (c # cs)) = None" by blast
      have "j = 0"
      proof (rule ccontr)
        assume "j \<noteq> 0"
        then have "marker_len key (drop 0 (c # cs)) = None" using j(4) by blast
        with Some show False by simp
      qed
      with j Some show "search_marker key (c # cs) i = Some (a, b)" by auto
    qed
  next
    case None
    have "(\<exists>j<length (c # cs). a = i + j \<and>
          marker_len key (drop j (c # cs)) = Some (b - a) \<and> a \<le> b \<and>
          (\<forall>j'<j. marker_len key (drop j' (c # cs)) = None)) \<longleftrightarrow>
       (\<exists>j<length cs. a = (i + 1) + j \<and>
          marker_len key (drop j cs) = Some (b - a) \<and> a \<le> b \<and>
          (\<forall>j'<j. marker_len key (drop j' cs) = None))" (is "?L \<longleftrightarrow> ?R")
    proof
      assume ?L
      then obtain j where j: "j < length (c # cs)" "a = i + j"
        "marker_len key (drop j (c # cs)) = Some (b - a)" "a \<le> b"
        "\<forall>j'<j. marker_len key (drop j' (c # cs)) = None" by blast
      from j(3) None have "j \<noteq> 0" by (cases j) auto
      then obtain k where k: "j = Suc k" by (cases j) auto
      have "\<forall>j'<k. marker_len key (drop j' cs) = None"
      proof (intro allI impI)
        fix j' assume "j' < k"
        then have "Suc j' < j" using k by simp
        then have "marker_len key (drop (Suc j') (c # cs)) = None" using j(5) by blast
        then show "marker_len key (drop j' cs) = None" by simp
      qed
      with j k show ?R by (intro exI [of _ k]) auto
    next
      assume ?R
      then obtain k where k: "k < length cs" "a = (i + 1) + k"
        "marker_len key (drop k cs) = Some (b - a)" "a \<le> b"
        "\<forall>j'<k. marker_len key (drop j' cs) = None" by blast
      have "\<forall>j'<Suc k. marker_len key (drop j' (c # cs)) = None"
      proof (intro allI impI)
        fix j' assume "j' < Suc k"
        then show "marker_len key (drop j' (c # cs)) = None"
          using None k(5) by (cases j') auto
      qed
      with k show ?L by (intro exI [of _ "Suc k"]) auto
    qed
    with None show ?thesis by (simp add: Cons.IH)
  qed
qed

lemma marker_at_iff: "marker_at key text i n \<longleftrightarrow> i < length text \<and> marker_len key (drop i text) = Some n"
  by (auto simp: marker_at_def marker_len_Some_iff)

lemma first_marker_iff: "first_marker key text ms me \<longleftrightarrow> search_marker key text 0 = Some (ms, me)"
proof -
  have "(\<forall>i<ms. \<forall>n. \<not> marker_at key text i n) \<longleftrightarrow> (\<forall>i<ms. marker_len key (drop i text) = None)"
    if "ms < length text"
    using that by (auto simp: marker_at_iff)
  then show ?thesis
    unfolding first_marker_def search_marker_Some_iff marker_at_iff by auto
qed

lemma search_sep_marker_None_iff:
  "search_sep_marker key s i = None \<longleftrightarrow> (\<forall>j<length s. \<not> sep_marker_at key (drop j s))"
proof (induction s arbitrary: i)
  case Nil
  then show ?case by simp
next
  case (Cons c cs)
  show ?case
  proof (cases "sep_marker_at key (c # cs)")
    case True
    then show ?thesis by force
  next
    case False
    have "(\<forall>j<length (c # cs). \<not> sep_marker_at key (drop j (c # cs))) \<longleftrightarrow>
        (\<forall>j<length cs. \<not> sep_marker_at key (drop j cs))"
      using False by (auto simp: less_Suc_eq_0_disj)
    with False show ?thesis by (simp add: Cons.IH)
  qed
qed

lemma search_sep_marker_Some_iff:
  "search_sep_marker key s i = Some p \<longleftrightarrow>
     (\<exists>j<length s. p = i + j \<and> sep_marker_at key (drop j s) \<and>
        (\<forall>j'<j. \<not> sep_marker_at key (drop j' s)))"
proof (induction s arbitrary: i)
  case Nil
  then show ?case by simp
next
  case (Cons c cs)
  show ?case
  proof (cases "sep_marker_at key (c # cs)")
    case True
    show ?thesis
    proof
      assume "search_sep_marker key (c # cs) i = Some p"
      with True have "p = i" by simp
      with True show "\<exists>j<length (c # cs). p = i + j \<and> sep_marker_at key (drop j (c # cs)) \<and>
          (\<forall>j'<j. \<not> sep_marker_at key (drop j' (c # cs)))"
        by (intro exI [of _ 0]) simp
    next
      assume "\<exists>j<length (c # cs). p = i + j \<and> sep_marker_at key (drop j (c # cs)) \<and>
          (\<forall>j'<j. \<not> sep_marker_at key (drop j' (c # cs)))"
      then obtain j where j: "p = i + j" "\<forall>j'<j. \<not> sep_marker_at key (drop j' (c # cs))"
        by blast
      have "j = 0"
      proof (rule ccontr)
        assume "j \<noteq> 0"
        then have "\<not> sep_marker_at key (drop 0 (c # cs))" using j(2) by blast
        with True show False by simp
      qed
      with j True show "search_sep_marker key (c # cs) i = Some p" by simp
    qed
  next
    case False
    have "(\<exists>j<length (c # cs). p = i + j \<and> sep_marker_at key (drop j (c # cs)) \<and>
          (\<forall>j'<j. \<not> sep_marker_at key (drop j' (c # cs)))) \<longleftrightarrow>
       (\<exists>j<length cs. p = (i + 1) + j \<and> sep_marker_at key (drop j cs) \<and>
          (\<forall>j'<j. \<not> sep_marker_at key (drop j' cs)))" (is "?L \<longleftrightarrow> ?R")
    proof
      assume ?L
      then obtain j where j: "j < length (c # cs)" "p = i + j"
        "sep_marker_at key (drop j (c # cs))"
        "\<forall>j'<j. \<not> sep_marker_at key (drop j' (c # cs))" by blast
      from j(3) False have "j \<noteq> 0" by (cases j) auto
      then obtain k where k: "j = Suc k" by (cases j) auto
      have "\<forall>j'<k. \<not> sep_marker_at key (drop j' cs)"
      proof (intro allI impI)
        fix j' assume "j' < k"
        then have "Suc j' < j" using k by simp
        then have "\<not> sep_marker_at key (drop (Suc j') (c # cs))" using j(4) by blast
        then show "\<not> sep_marker_at key (drop j' cs)" by simp
      qed
      with j k show ?R by (intro exI [of _ k]) auto
    next
      assume ?R
      then obtain k where k: "k < length cs" "p = (i + 1) + k"
        "sep_marker_at key (drop k cs)"
        "\<forall>j'<k. \<not> sep_marker_at key (drop j' cs)" by blast
      have "\<forall>j'<Suc k. \<not> sep_marker_at key (drop j' (c # cs))"
      proof (intro allI impI)
        fix j' assume "j' < Suc k"
        then show "\<not> sep_marker_at key (drop j' (c # cs))"
          using False k(4) by (cases j') auto
      qed
      with k show ?L by (intro exI [of _ "Suc k"]) auto
    qed
    with False show ?thesis by (simp add: Cons.IH)
  qed
qed

lemma not_space_quote: "\<not> is_space 34"
  by (simp add: is_space_def)

lemma not_space_comma: "\<not> is_space 44"
  by (simp add: is_space_def)

lemma sep_marker_at_iff: "sep_marker_at key s \<longleftrightarrow> sep_marker_here key s"
proof
  assume a: "sep_marker_at key s"
  define s' where "s' = (case s of [] \<Rightarrow> [] | c # r \<Rightarrow> if c = 44 then r else c # r)"
  from a obtain n where "marker_len key (dropWhile is_space s') = Some n"
    by (auto simp: sep_marker_at_def s'_def)
  then obtain ws' after where d: "dropWhile is_space s' = 34 # key @ 34 # ws' @ 58 # after"
    and ws': "list_all is_space ws'" by (auto simp: marker_len_Some_iff)
  have s'_eq: "s' = takeWhile is_space s' @ 34 # key @ 34 # ws' @ 58 # after"
    using d by (metis takeWhile_dropWhile_id)
  have ws: "list_all is_space (takeWhile is_space s')"
    by (simp add: list_all_iff) (meson set_takeWhileD)
  have "\<exists>comma. s = comma @ s' \<and> (comma = [] \<or> comma = [44])"
    by (cases s) (auto simp: s'_def)
  then obtain comma where c: "s = comma @ s'" "comma = [] \<or> comma = [44]" by blast
  show "sep_marker_here key s"
    unfolding sep_marker_here_def
    using c s'_eq ws ws'
    by (intro exI [of _ comma] exI [of _ "takeWhile is_space s'"] exI [of _ ws'] exI [of _ after])
      auto
next
  assume "sep_marker_here key s"
  then obtain comma ws ws' after where s: "s = comma @ ws @ 34 # key @ 34 # ws' @ 58 # after"
    and c: "comma = [] \<or> comma = [44]" and ws: "list_all is_space ws"
    and ws': "list_all is_space ws'" by (auto simp: sep_marker_here_def)
  have m: "marker_len key (34 # key @ 34 # ws' @ 58 # after) = Some (length key + length ws' + 3)"
    using ws' by (subst marker_len_Some_iff) blast
  have d: "dropWhile is_space (ws @ 34 # key @ 34 # ws' @ 58 # after) = 34 # key @ 34 # ws' @ 58 # after"
    using ws not_space_quote by (simp add: list_all_iff dropWhile_append)
  have "(case s of [] \<Rightarrow> [] | c # r \<Rightarrow> if c = 44 then r else c # r) =
      ws @ 34 # key @ 34 # ws' @ 58 # after"
  proof (cases "comma = []")
    case True
    show ?thesis
    proof (cases ws)
      case Nil
      with True s show ?thesis by simp
    next
      case (Cons w ws0)
      then have "is_space w" using ws by simp
      then have "w \<noteq> 44" using not_space_comma by auto
      with True s Cons show ?thesis by simp
    qed
  next
    case False
    with c s show ?thesis by simp
  qed
  then show "sep_marker_at key s"
    by (simp add: sep_marker_at_def d m)
qed

lemma sep_marker_first_alt:
  "sep_marker_first key text start p \<longleftrightarrow>
     (start \<le> p \<and> p < length text \<and> sep_marker_at key (drop p text) \<and>
      (\<forall>i. start \<le> i \<and> i < p \<longrightarrow> \<not> sep_marker_at key (drop i text)))"
  by (simp add: sep_marker_first_def sep_marker_at_iff)

lemma no_sep_marker_alt:
  "no_sep_marker key text start \<longleftrightarrow>
     (\<forall>i. start \<le> i \<and> i < length text \<longrightarrow> \<not> sep_marker_at key (drop i text))"
  by (simp add: no_sep_marker_def sep_marker_at_iff)

lemma search_in_rest_None:
  "search_sep_marker key (drop start text) 0 = None \<longleftrightarrow> no_sep_marker key text start"
proof -
  have "(\<forall>j<length text - start. \<not> sep_marker_at key (drop (j + start) text)) \<longleftrightarrow>
      (\<forall>i. start \<le> i \<and> i < length text \<longrightarrow> \<not> sep_marker_at key (drop i text))"
  proof (intro iffI allI impI)
    fix i assume a: "\<forall>j<length text - start. \<not> sep_marker_at key (drop (j + start) text)"
      and i: "start \<le> i \<and> i < length text"
    then have "i - start < length text - start" by arith
    with a have "\<not> sep_marker_at key (drop ((i - start) + start) text)" by blast
    with i show "\<not> sep_marker_at key (drop i text)" by simp
  next
    fix j assume a: "\<forall>i. start \<le> i \<and> i < length text \<longrightarrow> \<not> sep_marker_at key (drop i text)"
      and j: "j < length text - start"
    then have "start \<le> j + start \<and> j + start < length text" by arith
    with a show "\<not> sep_marker_at key (drop (j + start) text)" by blast
  qed
  then show ?thesis
    by (simp add: search_sep_marker_None_iff no_sep_marker_alt)
qed

lemma search_in_rest_Some:
  "search_sep_marker key (drop start text) 0 = Some j \<longleftrightarrow>
     sep_marker_first key text start (start + j)"
proof
  assume "search_sep_marker key (drop start text) 0 = Some j"
  then have j: "j < length text - start" "sep_marker_at key (drop (j + start) text)"
    "\<forall>j'<j. \<not> sep_marker_at key (drop (j' + start) text)"
    by (auto simp: search_sep_marker_Some_iff)
  have "\<forall>i. start \<le> i \<and> i < start + j \<longrightarrow> \<not> sep_marker_at key (drop i text)"
  proof (intro allI impI)
    fix i assume i: "start \<le> i \<and> i < start + j"
    then have "i - start < j" by arith
    with j(3) have "\<not> sep_marker_at key (drop ((i - start) + start) text)" by blast
    with i show "\<not> sep_marker_at key (drop i text)" by simp
  qed
  with j show "sep_marker_first key text start (start + j)"
    by (simp add: sep_marker_first_alt add.commute)
next
  assume a: "sep_marker_first key text start (start + j)"
  then have "j < length text - start" "sep_marker_at key (drop (j + start) text)"
    by (auto simp: sep_marker_first_alt add.commute)
  moreover have "\<forall>j'<j. \<not> sep_marker_at key (drop (j' + start) text)"
  proof (intro allI impI)
    fix j' assume "j' < j"
    then have "start \<le> j' + start \<and> j' + start < start + j" by arith
    with a show "\<not> sep_marker_at key (drop (j' + start) text)"
      unfolding sep_marker_first_alt by blast
  qed
  ultimately show "search_sep_marker key (drop start text) 0 = Some j"
    by (simp add: search_sep_marker_Some_iff)
qed

lemma sep_marker_first_unique:
  "sep_marker_first key text start p \<Longrightarrow> sep_marker_first key text start p' \<Longrightarrow> p' = p"
  unfolding sep_marker_first_alt by (metis linorder_neqE_nat)

lemma sep_marker_first_not_none:
  "sep_marker_first key text start p \<Longrightarrow> \<not> no_sep_marker key text start"
  unfolding sep_marker_first_alt no_sep_marker_alt by blast

lemma span_end_find_end:
  "span_end later text start e \<longleftrightarrow> e = find_end later text start (length text)"
proof (induction later)
  case Nil
  then show ?case by simp
next
  case (Cons key keys)
  show ?case
  proof (cases "search_sep_marker key (drop start text) 0")
    case None
    then have n: "no_sep_marker key text start" by (simp add: search_in_rest_None)
    then have "\<not> sep_marker_first key text start e"
      using sep_marker_first_not_none by blast
    with None n show ?thesis by (simp add: Cons.IH)
  next
    case (Some j)
    then have f: "sep_marker_first key text start (start + j)"
      by (simp add: search_in_rest_Some)
    then have "\<not> no_sep_marker key text start"
      by (rule sep_marker_first_not_none)
    moreover have "sep_marker_first key text start e \<longleftrightarrow> e = start + j"
      using f sep_marker_first_unique by blast
    ultimately show ?thesis using Some by simp
  qed
qed

lemma salvage_key_eq:
  "salvage_key text (idx, key) result =
     (case key_value text idx key of None \<Rightarrow> result | Some v \<Rightarrow> dict_set result (PStr key) v)"
  by (simp add: salvage_key_def key_value_def span_value_def trim_span_def raw_value_def Let_def
      split: option.splits)

lemma fold_salvage_other:
  "key \<notin> snd ` set iks \<Longrightarrow>
   map_of (fold (salvage_key text) iks acc) (PStr key) = map_of acc (PStr key)"
proof (induction iks arbitrary: acc)
  case Nil
  then show ?case by simp
next
  case (Cons ik iks)
  obtain i k where ik: "ik = (i, k)" by (cases ik)
  with Cons.prems have "k \<noteq> key" "key \<notin> snd ` set iks" by auto
  then show ?case
    by (simp add: ik Cons.IH salvage_key_eq dict_set_map_of split: option.splits)
qed

lemma fold_salvage_this:
  "distinct (map snd iks) \<Longrightarrow> (idx, key) \<in> set iks \<Longrightarrow>
   map_of (fold (salvage_key text) iks acc) (PStr key) =
     (case key_value text idx key of None \<Rightarrow> map_of acc (PStr key) | Some v \<Rightarrow> Some v)"
proof (induction iks arbitrary: acc)
  case Nil
  then show ?case by simp
next
  case (Cons ik iks)
  obtain i k where ik: "ik = (i, k)" by (cases ik)
  show ?case
  proof (cases "(idx, key) = ik")
    case True
    then have ik': "ik = (idx, key)" by simp
    then have "key \<notin> snd ` set iks" using Cons.prems(1) by force
    then show ?thesis
      by (simp add: ik' fold_salvage_other salvage_key_eq dict_set_map_of split: option.splits)
  next
    case False
    then have m: "(idx, key) \<in> set iks" using Cons.prems(2) by simp
    then have "key \<in> snd ` set iks" by force
    then have "k \<noteq> key" using Cons.prems(1) ik by auto
    then show ?thesis
      using Cons.IH [OF _ m] Cons.prems(1)
      by (simp add: ik salvage_key_eq dict_set_map_of split: option.splits)
  qed
qed

lemma fold_salvage_keys:
  "set (map fst (fold (salvage_key text) iks acc)) \<subseteq> set (map fst acc) \<union> PStr ` snd ` set iks"
proof (induction iks arbitrary: acc)
  case Nil
  then show ?case by simp
next
  case (Cons ik iks)
  obtain i k where ik: "ik = (i, k)" by (cases ik)
  have "set (map fst (salvage_key text ik acc)) \<subseteq> insert (PStr k) (set (map fst acc))"
    unfolding ik salvage_key_eq using dict_set_keys [of acc "PStr k"]
    by (auto split: option.splits)
  with Cons.IH [of "salvage_key text ik acc"] show ?case
    unfolding ik by (simp del: set_map) blast
qed

lemma fold_salvage_none:
  "(\<forall>ik \<in> set iks. search_marker (snd ik) text 0 = None) \<Longrightarrow>
   fold (salvage_key text) iks acc = acc"
  by (induction iks arbitrary: acc) (auto simp: salvage_key_def)

lemma expected_keys_distinct: "distinct EXPECTED_KEYS"
  by (simp add: EXPECTED_KEYS_def ustr_def)

lemma salvage_lookup:
  assumes "text \<noteq> []" and "idx < length EXPECTED_KEYS"
  shows "\<exists>d. salvage_json_like text = PDict d \<and>
           map_of d (PStr (EXPECTED_KEYS ! idx)) = key_value text idx (EXPECTED_KEYS ! idx)"
proof -
  have "(idx, EXPECTED_KEYS ! idx) \<in> set (enumerate 0 EXPECTED_KEYS)"
    using assms(2) by (simp add: in_set_enumerate_eq)
  moreover have "distinct (map snd (enumerate 0 EXPECTED_KEYS))"
    by (simp add: expected_keys_distinct)
  ultimately have "map_of (fold (salvage_key text) (enumerate 0 EXPECTED_KEYS) [])
      (PStr (EXPECTED_KEYS ! idx)) = key_value text idx (EXPECTED_KEYS ! idx)"
    by (simp add: fold_salvage_this split: option.splits)
  then show ?thesis using assms(1) by (simp add: salvage_json_like_def)
qed

text \<open>
  Claim C6. The salvager returns a dict for every string, with no key other than the
  seven expected ones; when the text holds no marker of any of the seven keys the dict
  is empty, and so it is for the empty string. No statement of the function can raise
  on a string, so the model has no exception to return.
\<close>

theorem salvage_json_like_total:
  "(\<exists>d. salvage_json_like text = PDict d \<and> set (map fst d) \<subseteq> PStr ` set EXPECTED_KEYS) \<and>
   ((\<forall>key \<in> set EXPECTED_KEYS. \<not> occurs_marker key text) \<longrightarrow> salvage_json_like text = PDict []) \<and>
   salvage_json_like [] = PDict []"
proof (intro conjI impI)
  have "snd ` set (enumerate 0 EXPECTED_KEYS) = set EXPECTED_KEYS"
    by (metis map_snd_enumerate set_map)
  then show "\<exists>d. salvage_json_like text = PDict d \<and> set (map fst d) \<subseteq> PStr ` set EXPECTED_KEYS"
    using fold_salvage_keys [of "text" "enumerate 0 EXPECTED_KEYS" "[]"]
    by (simp add: salvage_json_like_def del: set_map)
next
  assume a: "\<forall>key \<in> set EXPECTED_KEYS. \<not> occurs_marker key text"
  have "search_marker (snd ik) text 0 = None" if "ik \<in> set (enumerate 0 EXPECTED_KEYS)" for ik
  proof -
    from that have "snd ik \<in> set EXPECTED_KEYS"
      by (metis in_set_zipE enumerate_eq_zip prod.collapse)
    with a have "\<not> occurs_marker (snd ik) text" by blast
    then show ?thesis by (simp add: occurs_marker_iff search_marker_None_iff)
  qed
  then show "salvage_json_like text = PDict []"
    by (simp add: salvage_json_like_def fold_salvage_none)
next
  show "salvage_json_like [] = PDict []" by (simp add: salvage_json_like_def)
qed

text \<open>
  Claim C7, as amended. For a key whose first marker runs from \<open>ms\<close> to \<open>me\<close>, the
  span starts at \<open>me\<close>, right after the marker, and has exactly one end: the later
  keys are tried in the order of their declaration, and the span ends where the first
  boundary (optional comma, white space, marker) of the first later key that has one
  at or after \<open>me\<close> starts, whether or not a marker of another later key stands
  before it in the text; it ends with the text when no later key has one. Keys
  declared before the current one are not looked at. The value stored under the key is
  the value of that span.
\<close>

theorem salvage_span_bounds:
  assumes "idx < length EXPECTED_KEYS"
    and "first_marker (EXPECTED_KEYS ! idx) text ms me"
  shows "\<exists>e d. span_end (drop (Suc idx) EXPECTED_KEYS) text me e \<and>
           (\<forall>e'. span_end (drop (Suc idx) EXPECTED_KEYS) text me e' \<longrightarrow> e' = e) \<and>
           salvage_json_like text = PDict d \<and>
           map_of d (PStr (EXPECTED_KEYS ! idx)) =
             span_value (EXPECTED_KEYS ! idx) (slice text me e)"
proof -
  let ?e = "find_end (drop (Suc idx) EXPECTED_KEYS) text me (length text)"
  have s: "search_marker (EXPECTED_KEYS ! idx) text 0 = Some (ms, me)"
    using assms(2) by (simp add: first_marker_iff)
  have ne: "text \<noteq> []"
    using assms(2) by (auto simp: first_marker_def marker_at_def)
  obtain d where d: "salvage_json_like text = PDict d"
    "map_of d (PStr (EXPECTED_KEYS ! idx)) = key_value text idx (EXPECTED_KEYS ! idx)"
    using salvage_lookup [OF ne assms(1)] by blast
  have "key_value text idx (EXPECTED_KEYS ! idx) =
      span_value (EXPECTED_KEYS ! idx) (slice text me ?e)"
    by (simp add: key_value_def s)
  with d show ?thesis
    by (intro exI [of _ ?e] exI [of _ d]) (simp add: span_end_find_end)
qed

lemma strip_by_last:
  assumes "strip_by p s \<noteq> []"
  shows "\<not> p (last (strip_by p s))"
proof -
  let ?t = "dropWhile p (rev (dropWhile p s))"
  have "?t \<noteq> []" using assms by (simp add: strip_by_def lstrip_by_def rstrip_by_def)
  then have "\<not> p (hd ?t)" by (rule hd_dropWhile)
  moreover have "last (strip_by p s) = hd ?t"
    using \<open>?t \<noteq> []\<close> by (simp add: strip_by_def lstrip_by_def rstrip_by_def last_rev)
  ultimately show ?thesis by simp
qed

lemma match_quoted_trimmed:
  assumes "trim_span span \<noteq> []"
  shows "match_quoted (trim_span span) =
     (if quoted (trim_span span) then Some (unquote (trim_span span)) else None)"
proof -
  let ?s = "trim_span span"
  have nl: "last ?s \<noteq> 10"
  proof
    assume "last ?s = 10"
    moreover have "\<not> is_space (last ?s)"
      using assms unfolding trim_span_def py_strip_def by (rule strip_by_last)
    ultimately show False by (simp add: is_space_def)
  qed
  obtain c r where s: "?s = c # r" using assms by (cases ?s) auto
  show ?thesis
  proof (cases "r = []")
    case True
    then show ?thesis by (simp add: s match_quoted_def quoted_def)
  next
    case False
    then have "last ?s = last r" by (simp add: s)
    with nl have "last r \<noteq> 10" by simp
    with False show ?thesis
      by (auto simp: s match_quoted_def quoted_def unquote_def Suc_le_eq)
  qed
qed

text \<open>
  Claim C9, as amended. For a text key with a non-empty trimmed span: when the span
  starts and ends with a double quote, the two quotes are dropped; in either case every
  backslash before a double quote is then dropped and the result is trimmed of white
  space. An unquoted span is therefore not always kept as it is.
\<close>

theorem salvage_text_field:
  assumes "idx < length EXPECTED_KEYS"
    and "EXPECTED_KEYS ! idx \<notin> set list_fields"
    and "first_marker (EXPECTED_KEYS ! idx) text ms me"
    and "span_end (drop (Suc idx) EXPECTED_KEYS) text me e"
    and "trim_span (slice text me e) \<noteq> []"
  shows "\<exists>d. salvage_json_like text = PDict d \<and>
           map_of d (PStr (EXPECTED_KEYS ! idx)) =
             Some (PStr (py_strip (replace_escaped
               (if quoted (trim_span (slice text me e))
                then unquote (trim_span (slice text me e))
                else trim_span (slice text me e)))))"
proof -
  have s: "search_marker (EXPECTED_KEYS ! idx) text 0 = Some (ms, me)"
    using assms(3) by (simp add: first_marker_iff)
  have ne: "text \<noteq> []"
    using assms(3) by (auto simp: first_marker_def marker_at_def)
  have e: "e = find_end (drop (Suc idx) EXPECTED_KEYS) text me (length text)"
    using assms(4) by (simp add: span_end_find_end)
  obtain d where d: "salvage_json_like text = PDict d"
    "map_of d (PStr (EXPECTED_KEYS ! idx)) = key_value text idx (EXPECTED_KEYS ! idx)"
    using salvage_lookup [OF ne assms(1)] by blast
  have "key_value text idx (EXPECTED_KEYS ! idx) =
      Some (text_value (trim_span (slice text me e)))"
    using assms(2,5) by (simp add: key_value_def s e span_value_def)
  then show ?thesis
    using d assms(5) by (simp add: text_value_def match_quoted_trimmed)
qed

lemmas eval_defs =
  salvage_json_like_def EXPECTED_KEYS_def salvage_key_def marker_len_def ustr_def dq_def
  sep_marker_at_def raw_value_def slice_def py_strip_def strip_by_def lstrip_by_def rstrip_by_def
  is_space_def list_fields_def text_value_def match_quoted_def Let_def

lemma occurs_marker_search: "occurs_marker key text \<longleftrightarrow> search_marker key text 0 \<noteq> None"
  by (simp add: occurs_marker_iff search_marker_None_iff)

text \<open>A run of the theorem on a text without markers.\<close>

theorem salvage_json_like_total_witness:
  "salvage_json_like (ustr ''n/a'') = PDict []"
proof -
  have "\<forall>key \<in> set EXPECTED_KEYS. \<not> occurs_marker key (ustr ''n/a'')"
    by (simp add: occurs_marker_search EXPECTED_KEYS_def marker_len_def ustr_def)
  then show ?thesis
    using salvage_json_like_total [of "ustr ''n/a''"] by blast
qed

text \<open>
  Claim C7, as stated, fails when later keys stand out of order in the text. In
  \<open>"target_users":"a","summary":"b","risk_score":"c"\<close> the span of
  \<open>target_users\<close> starts at 15; the boundary of \<open>summary\<close> at 18 comes first in
  the text, but \<open>risk_score\<close> is declared before \<open>summary\<close>, so the span ends at
  its boundary at 32 and the value runs over the marker of \<open>summary\<close>.
\<close>

theorem salvage_span_not_earliest_marker:
  "salvage_json_like text_out_of_order =
     PDict [
       (PStr (ustr ''target_users''),
        PStr (ustr ''a'' @ [34] @ ustr '','' @ dq ''summary'' @ ustr '':'' @ [34] @ ustr ''b'')),
       (PStr (ustr ''risk_score''), PStr (ustr ''c'')),
       (PStr (ustr ''summary''),
        PStr (ustr ''b'' @ [34] @ ustr '','' @ dq ''risk_score'' @ ustr '':'' @ [34] @ ustr ''c''))] \<and>
   find_end (drop 3 EXPECTED_KEYS) text_out_of_order 15 (length text_out_of_order) = 32 \<and>
   earliest_later_marker (drop 3 EXPECTED_KEYS) text_out_of_order 15 = 18"
  by (simp add: text_out_of_order_def eval_defs earliest_later_marker_def)

text \<open>A run of the theorem on \<open>"risk_score":1,"summary":2\<close>, for \<open>risk_score\<close>.\<close>

theorem salvage_span_bounds_witness:
  "first_marker (ustr ''risk_score'') text_two_keys 0 13 \<and>
   span_end [ustr ''summary''] text_two_keys 13 14 \<and>
   (\<exists>d. salvage_json_like text_two_keys = PDict d \<and>
      map_of d (PStr (ustr ''risk_score'')) = Some (PStr (ustr ''1'')))"
proof -
  have k: "EXPECTED_KEYS ! 5 = ustr ''risk_score''" "drop (Suc 5) EXPECTED_KEYS = [ustr ''summary'']"
    "5 < length EXPECTED_KEYS"
    by (simp_all add: EXPECTED_KEYS_def)
  have m: "first_marker (ustr ''risk_score'') text_two_keys 0 13"
    by (simp add: first_marker_iff text_two_keys_def marker_len_def ustr_def dq_def is_space_def)
  have e: "span_end [ustr ''summary''] text_two_keys 13 14"
    by (simp add: span_end_find_end text_two_keys_def marker_len_def sep_marker_at_def ustr_def
        dq_def is_space_def)
  have v: "span_value (ustr ''risk_score'') (slice text_two_keys 13 14) = Some (PStr (ustr ''1''))"
    by (simp add: span_value_def trim_span_def slice_def text_two_keys_def list_fields_def text_value_def
        match_quoted_def py_strip_def strip_by_def lstrip_by_def rstrip_by_def is_space_def
        ustr_def dq_def)
  have m': "first_marker (EXPECTED_KEYS ! 5) text_two_keys 0 13"
    using m by (simp only: k(1))
  note t = salvage_span_bounds [OF k(3) m', unfolded k(1) k(2)]
  from t obtain e' d where r: "span_end [ustr ''summary''] text_two_keys 13 e'"
    "\<forall>x. span_end [ustr ''summary''] text_two_keys 13 x \<longrightarrow> x = e'"
    "salvage_json_like text_two_keys = PDict d"
    "map_of d (PStr (ustr ''risk_score'')) =
       span_value (ustr ''risk_score'') (slice text_two_keys 13 e')"
    by blast
  from r(2) e have "e' = 14" by blast
  with r(4) v have "map_of d (PStr (ustr ''risk_score'')) = Some (PStr (ustr ''1''))"
    by (simp only:)
  with r(3) m e show ?thesis by blast
qed

text \<open>A run of the theorem on \<open>"summary":"a\""\<close>, whose value is \<open>a"\<close>.\<close>

theorem salvage_text_field_witness:
  "first_marker (ustr ''summary'') text_quoted 0 10 \<and>
   span_end [] text_quoted 10 15 \<and>
   trim_span (slice text_quoted 10 15) = [34, 97, 92, 34, 34] \<and>
   (\<exists>d. salvage_json_like text_quoted = PDict d \<and>
      map_of d (PStr (ustr ''summary'')) = Some (PStr [97, 34]))"
proof -
  have m: "first_marker (ustr ''summary'') text_quoted 0 10"
    by (simp add: first_marker_iff text_quoted_def marker_len_def ustr_def dq_def is_space_def)
  have se: "span_end [] text_quoted 10 15"
    by (simp add: text_quoted_def dq_def ustr_def)
  have k: "EXPECTED_KEYS ! 6 = ustr ''summary''" by (simp add: EXPECTED_KEYS_def)
  have t: "trim_span (slice text_quoted 10 15) = [34, 97, 92, 34, 34]"
    by (simp add: trim_span_def slice_def text_quoted_def dq_def ustr_def py_strip_def strip_by_def
        lstrip_by_def rstrip_by_def is_space_def)
  have "\<exists>d. salvage_json_like text_quoted = PDict d \<and>
     map_of d (PStr (EXPECTED_KEYS ! 6)) =
       Some (PStr (py_strip (replace_escaped
         (if quoted (trim_span (slice text_quoted 10 15))
          then unquote (trim_span (slice text_quoted 10 15))
          else trim_span (slice text_quoted 10 15)))))"
  proof (rule salvage_text_field)
    show "6 < length EXPECTED_KEYS" by (simp add: EXPECTED_KEYS_def)
    show "EXPECTED_KEYS ! 6 \<notin> set list_fields"
      by (simp add: EXPECTED_KEYS_def list_fields_def ustr_def)
    show "first_marker (EXPECTED_KEYS ! 6) text_quoted 0 10"
      using m by (simp add: k)
    show "span_end (drop (Suc 6) EXPECTED_KEYS) text_quoted 10 15"
      using se by (simp add: EXPECTED_KEYS_def)
    show "trim_span (slice text_quoted 10 15) \<noteq> []" by (simp add: t)
  qed
  then show ?thesis
    using m se
    by (simp add: k t quoted_def unquote_def py_strip_def strip_by_def lstrip_by_def
        rstrip_by_def is_space_def)
qed

text \<open>
  Claim C9, as stated, fails: in \<open>"summary":a\"b\<close> the trimmed span \<open>a\"b\<close> is not
  quoted, and the value is \<open>a"b\<close>, not the span.
\<close>

theorem salvage_unquoted_span_is_changed:
  "salvage_json_like text_unquoted = PDict [(PStr (ustr ''summary''), PStr [97, 34, 98])] \<and>
   trim_span (slice text_unquoted 10 (length text_unquoted)) = [97, 92, 34, 98] \<and>
   \<not> quoted (trim_span (slice text_unquoted 10 (length text_unquoted)))"
  by (simp add: text_unquoted_def eval_defs trim_span_def quoted_def)

end
